theory Spec2Isabelle
  imports Main "HOL-Library.Monad_Syntax"
begin

section \<open>Calendar dates as the JavaScript runtime computes them\<close>

text \<open>
  \<^verbatim>\<open>scraper.js\<close> works on \<^verbatim>\<open>Date\<close> objects in local time. A \<^verbatim>\<open>Date\<close> is modelled by its
  local calendar fields: the full year, the month index (0 for January), the day of the
  month and the milliseconds elapsed since local midnight. The time zone is taken to have
  no daylight-saving shift, as in India, where the portal lives, so that every local
  midnight exists and \<^verbatim>\<open>setMonth\<close> and \<^verbatim>\<open>setDate\<close> keep the time of day.
\<close>

record jsdate =
  fullYear :: int
  monthIdx :: int
  dayOfMonth :: int
  msOfDay :: int

definition is_leap :: "int \<Rightarrow> bool" where
  "is_leap y = (y mod 4 = 0 \<and> (y mod 100 \<noteq> 0 \<or> y mod 400 = 0))"

definition days_in_month :: "int \<Rightarrow> int \<Rightarrow> int" where
  "days_in_month y m =
     (if m = 1 then (if is_leap y then 29 else 28)
      else if m = 3 \<or> m = 5 \<or> m = 8 \<or> m = 10 then 30
      else 31)"

definition prev_month_year :: "int \<Rightarrow> int \<Rightarrow> int" where
  "prev_month_year y m = (if m = 0 then y - 1 else y)"

definition prev_month :: "int \<Rightarrow> int" where
  "prev_month m = (if m = 0 then 11 else m - 1)"

definition next_month_year :: "int \<Rightarrow> int \<Rightarrow> int" where
  "next_month_year y m = (if m = 11 then y + 1 else y)"

definition next_month :: "int \<Rightarrow> int" where
  "next_month m = (if m = 11 then 0 else m + 1)"

text \<open>
  ECMAScript's \<^verbatim>\<open>MakeDay(year, month, date)\<close> takes the first day of the month
  \<^verbatim>\<open>year + floor(month / 12)\<close>, \<^verbatim>\<open>month mod 12\<close> and adds \<^verbatim>\<open>date - 1\<close> days to it. The days
  are added here by walking over whole months, forwards or backwards.
\<close>

function roll_days :: "int \<Rightarrow> int \<Rightarrow> int \<Rightarrow> int \<times> int \<times> int" where
  "roll_days y m d =
     (if d < 1 then
        roll_days (prev_month_year y m) (prev_month m)
          (d + days_in_month (prev_month_year y m) (prev_month m))
      else if days_in_month y m < d then
        roll_days (next_month_year y m) (next_month m) (d - days_in_month y m)
      else (y, m, d))"
  by pat_completeness auto
termination
  by (relation "measure (\<lambda>(y, m, d). if d < 1 then 32 + nat (1 - d) else nat d)")
     (auto simp: days_in_month_def)

definition MakeDay :: "int \<Rightarrow> int \<Rightarrow> int \<Rightarrow> int \<times> int \<times> int" where
  "MakeDay y m d = roll_days (y + m div 12) (m mod 12) d"

definition setMonth :: "jsdate \<Rightarrow> int \<Rightarrow> jsdate" where
  "setMonth t m =
     (case MakeDay (fullYear t) m (dayOfMonth t) of
        (y', m', d') \<Rightarrow> t\<lparr>fullYear := y', monthIdx := m', dayOfMonth := d'\<rparr>)"

definition setDate :: "jsdate \<Rightarrow> int \<Rightarrow> jsdate" where
  "setDate t d =
     (case MakeDay (fullYear t) (monthIdx t) d of
        (y', m', d') \<Rightarrow> t\<lparr>fullYear := y', monthIdx := m', dayOfMonth := d'\<rparr>)"

text \<open>
  \<^verbatim>\<open>new Date(y, m, d)\<close>: a year from 0 to 99 stands for 1900 + year; the time of day is
  midnight.
\<close>

definition newDate :: "int \<Rightarrow> int \<Rightarrow> int \<Rightarrow> jsdate" where
  "newDate y m d =
     (case MakeDay (if 0 \<le> y \<and> y \<le> 99 then 1900 + y else y) m d of
        (y', m', d') \<Rightarrow> \<lparr>fullYear = y', monthIdx = m', dayOfMonth = d', msOfDay = 0\<rparr>)"

text \<open>
  \<^verbatim>\<open>a > b\<close> on two dates compares their time values; on calendar fields that is the
  lexicographic order of year, month, day and time of day.
\<close>

definition date_gt :: "jsdate \<Rightarrow> jsdate \<Rightarrow> bool" where
  "date_gt a b =
     (fullYear b < fullYear a \<or>
      (fullYear a = fullYear b \<and>
        (monthIdx b < monthIdx a \<or>
         (monthIdx a = monthIdx b \<and>
           (dayOfMonth b < dayOfMonth a \<or>
            (dayOfMonth a = dayOfMonth b \<and> msOfDay b < msOfDay a))))))"

text \<open>A well-formed date: the fields a \<^verbatim>\<open>Date\<close> object can report.\<close>

definition valid_date :: "jsdate \<Rightarrow> bool" where
  "valid_date t =
     (0 \<le> monthIdx t \<and> monthIdx t \<le> 11 \<and> 1 \<le> dayOfMonth t \<and>
      dayOfMonth t \<le> days_in_month (fullYear t) (monthIdx t) \<and>
      0 \<le> msOfDay t \<and> msOfDay t < 86400000)"

subsection \<open>The date helpers of scraper.js\<close>

definition addMonths :: "jsdate \<Rightarrow> int \<Rightarrow> jsdate" where
  "addMonths date months =
     (let d = setMonth date (monthIdx date + months)
      in if dayOfMonth d \<noteq> dayOfMonth date then setDate d 0 else d)"

definition addDays :: "jsdate \<Rightarrow> int \<Rightarrow> jsdate" where
  "addDays date days = setDate date (dayOfMonth date + days)"


subsection \<open>Decimal text of numbers, splitting and trimming of strings\<close>

text \<open>
  Strings are lists of characters (bytes). \<^verbatim>\<open>String(n)\<close> of an integer is its decimal text,
  \<^verbatim>\<open>padStart(2, '0')\<close> fills a shorter text with zeros on the left, \<^verbatim>\<open>split\<close> cuts a
  string at every occurrence of the separator.
\<close>

definition is_digit :: "char \<Rightarrow> bool" where
  "is_digit c = (48 \<le> (of_char c :: nat) \<and> (of_char c :: nat) \<le> 57)"

definition digit_val :: "char \<Rightarrow> nat" where
  "digit_val c = of_char c - 48"

definition digit_char :: "nat \<Rightarrow> char" where
  "digit_char n = char_of (48 + n)"

fun digits :: "nat \<Rightarrow> string" where
  "digits n = (if n < 10 then [digit_char n] else digits (n div 10) @ [digit_char (n mod 10)])"

definition String_of_int :: "int \<Rightarrow> string" where
  "String_of_int i = (if i < 0 then CHR ''-'' # digits (nat (- i)) else digits (nat i))"

definition padStart2 :: "string \<Rightarrow> string" where
  "padStart2 s = replicate (2 - length s) CHR ''0'' @ s"

fun split_on :: "char \<Rightarrow> string \<Rightarrow> string list" where
  "split_on sep [] = [[]]"
| "split_on sep (c # cs) =
     (if c = sep then [] # split_on sep cs
      else (case split_on sep cs of
              [] \<Rightarrow> [[c]]
            | fld # flds \<Rightarrow> (c # fld) # flds))"

text \<open>
  \<^verbatim>\<open>Number(s)\<close> on a string of decimal digits is its value, and 0 on the empty string. On
  other strings it is mostly \<^verbatim>\<open>NaN\<close>; the other numeric notations it accepts (signs,
  surrounding blanks, fractions, exponents, hexadecimal), which the \<^verbatim>\<open>DD-MM-YYYY\<close> format
  of the prompt excludes, are not modelled: the value is \<open>None\<close> on every string that is
  not made of digits.
\<close>

definition Number_of :: "string \<Rightarrow> int option" where
  "Number_of s =
     (if list_all is_digit s then Some (foldl (\<lambda>a c. 10 * a + int (digit_val c)) 0 s)
      else None)"

text \<open>\<^verbatim>\<open>trim\<close> removes the blanks at both ends (the ASCII ones here).\<close>

definition is_space :: "char \<Rightarrow> bool" where
  "is_space c = ((of_char c :: nat) = 32 \<or> (9 \<le> (of_char c :: nat) \<and> (of_char c :: nat) \<le> 13))"

definition trim :: "string \<Rightarrow> string" where
  "trim s = rev (dropWhile is_space (rev (dropWhile is_space s)))"

subsection \<open>parseDate and formatDate\<close>

text \<open>
  \<^verbatim>\<open>const [d, m, y] = dateStr.split('-').map(Number); return new Date(y, m - 1, d)\<close>.
  A missing or non-numeric field makes the result an \<^verbatim>\<open>Invalid Date\<close>, here \<open>None\<close>.
\<close>

definition parseDate :: "string \<Rightarrow> jsdate option" where
  "parseDate dateStr =
     (case map Number_of (split_on CHR ''-'' dateStr) of
        Some d # Some m # Some y # _ \<Rightarrow> Some (newDate y (m - 1) d)
      | _ \<Rightarrow> None)"

definition formatDate :: "jsdate \<Rightarrow> string" where
  "formatDate date =
     (let d = padStart2 (String_of_int (dayOfMonth date));
          m = padStart2 (String_of_int (monthIdx date + 1));
          y = String_of_int (fullYear date)
      in d @ ''-'' @ m @ ''-'' @ y)"


section \<open>The crawl engine of scraper.js\<close>

subsection \<open>The remote portal, the file system and the run state\<close>

text \<open>
  Every call that can fail is an awaited promise: it rejects (\<open>Threw\<close>) or resolves with a
  value (\<open>Returned\<close>).
\<close>

datatype 'a attempt = Threw | Returned 'a

text \<open>The form posted to the listing endpoint.\<close>

record payload =
  p_fromDate :: string
  p_toDate :: string
  p_department :: string
  p_bno :: string
  p_buyer_category :: string
  p_page :: nat

text \<open>
  The body \<^verbatim>\<open>dlRes.data\<close> of a token-exchange response: a falsy value, or a value whose
  \<^verbatim>\<open>status\<close> and \<^verbatim>\<open>code\<close> properties are given when they are strings and \<open>None\<close> when
  they are absent or of another type.
\<close>

datatype captcha_body = Falsy | Body "string option" "string option"

text \<open>
  Every effect of a run, in the order it happens, with whether it succeeded. A listing
  request is kept with the answer it got, and \<open>ScrapingPeriod\<close> is the console line of
  line 49 that announces a window.
\<close>

datatype event =
    EnsureDir string bool
  | ReadFile string bool
  | ScrapingPeriod string string
  | PostListing string payload "string option list attempt"
  | PostCaptcha string string bool
  | GetPdf string string bool
  | WriteFile string bool
  | AppendFile string string bool
  | CacheAdd string

text \<open>
  The world outside the program: the clock, the portal and the outcome of file
  operations. Every answer may depend on all that happened before (the events so far),
  on the session cookie of the client and on the request. A listing page is given as
  \<^verbatim>\<open>cheerio\<close> reads it: one entry for each \<^verbatim>\<open>.block_header\<close> node, holding the \<^verbatim>\<open>onclick\<close>
  attribute of the first anchor inside it, if there is one. \<open>anchor_href\<close> is
  \<^verbatim>\<open>cheerio.load(code)('a').attr('href')\<close>.
\<close>

record world =
  today :: jsdate
  listing :: "event list \<Rightarrow> string \<Rightarrow> payload \<Rightarrow> string option list attempt"
  sbtCaptcha :: "event list \<Rightarrow> string \<Rightarrow> string \<Rightarrow> captcha_body attempt"
  getPdf :: "event list \<Rightarrow> string \<Rightarrow> string \<Rightarrow> string attempt"
  anchor_href :: "string \<Rightarrow> string option"
  ensureDir_ok :: "event list \<Rightarrow> string \<Rightarrow> bool"
  readFile_ok :: "event list \<Rightarrow> string \<Rightarrow> bool"
  writeFile_ok :: "event list \<Rightarrow> string \<Rightarrow> bool"
  appendFile_ok :: "event list \<Rightarrow> string \<Rightarrow> bool"

text \<open>The disk: the directories and the files with their contents.\<close>

record disk =
  dirs :: "string set"
  files :: "string \<rightharpoonup> string"

text \<open>
  The state of a run: the disk, the four counters of \<^verbatim>\<open>stats\<close>, the in-memory set
  \<^verbatim>\<open>cachedIds\<close> and the events so far.
\<close>

record run_state = disk +
  scraped :: nat
  downloaded :: nat
  skipped :: nat
  failed :: nat
  cachedIds :: "string set"
  trace :: "event list"

text \<open>
  The options of a crawl and the answers of the prompt. The throttle time is the result
  of \<^verbatim>\<open>parseInt\<close>, a number or \<^verbatim>\<open>NaN\<close> (\<open>None\<close>); it only sets the delay before a token
  exchange.
\<close>

record options =
  o_throttleTime :: "int option"
  o_department :: string
  o_bno :: string
  o_buyer_category :: string

record answers =
  cookie :: string
  throttleTime :: "int option"
  fromDate :: string
  toDate :: string
  department :: string
  bno :: string
  buyer_category :: string
  repeatTillDate :: bool

definition CACHE_FILE :: string where
  "CACHE_FILE = ''temp-cache.txt''"

definition PDF_ROOT :: string where
  "PDF_ROOT = ''pdfs''"

text \<open>
  \<^verbatim>\<open>path.join\<close> of two segments (without its normalisation of dots and repeated
  slashes).
\<close>

definition path_join :: "string \<Rightarrow> string \<Rightarrow> string" where
  "path_join a b = a @ ''/'' @ b"

definition log_event :: "event \<Rightarrow> run_state \<Rightarrow> run_state" where
  "log_event e s = s\<lparr>trace := trace s @ [e]\<rparr>"

definition count_failed :: "run_state \<Rightarrow> run_state" where
  "count_failed s = s\<lparr>failed := failed s + 1\<rparr>"

subsection \<open>The two patterns matched against the portal's markup\<close>

text \<open>
  \<^verbatim>\<open>onclick.match(/'([^']+)'/)\<close>: the leftmost single quote followed by one or more
  characters other than a quote and then a quote; the result is the text between them.
\<close>

fun quoted_match :: "string \<Rightarrow> string option" where
  "quoted_match [] = None"
| "quoted_match (c # cs) =
     (if c = CHR 0x27 \<and> takeWhile (\<lambda>x. x \<noteq> CHR 0x27) cs \<noteq> [] \<and>
         dropWhile (\<lambda>x. x \<noteq> CHR 0x27) cs \<noteq> []
      then Some (takeWhile (\<lambda>x. x \<noteq> CHR 0x27) cs)
      else quoted_match cs)"

text \<open>
  \<^verbatim>\<open>code.match(/href=\\?"([^"]+)\\?"/)\<close>: \<^verbatim>\<open>href=\<close>, an optional backslash, a double
  quote, one or more characters other than a double quote, and a double quote. The
  characters are taken greedily, so the group runs up to the next double quote.
\<close>

definition href_at :: "string \<Rightarrow> string option" where
  "href_at s =
     (if take 5 s = ''href='' then
        (let r = drop 5 s;
             r' = (case r of c # cs \<Rightarrow> if c = CHR 0x5C then cs else r | [] \<Rightarrow> r)
         in case r' of
              [] \<Rightarrow> None
            | q # body \<Rightarrow>
                if q = CHR 0x22 \<and> takeWhile (\<lambda>x. x \<noteq> CHR 0x22) body \<noteq> [] \<and>
                   dropWhile (\<lambda>x. x \<noteq> CHR 0x22) body \<noteq> []
                then Some (takeWhile (\<lambda>x. x \<noteq> CHR 0x22) body)
                else None)
      else None)"

fun href_match :: "string \<Rightarrow> string option" where
  "href_match [] = None"
| "href_match (c # cs) =
     (case href_at (c # cs) of Some u \<Rightarrow> Some u | None \<Rightarrow> href_match cs)"

text \<open>\<^verbatim>\<open>downloadUrl.replace(/\\\//g, '/')\<close>: every backslash-slash pair becomes a slash.\<close>

fun unescape_slashes :: "string \<Rightarrow> string" where
  "unescape_slashes (a # b # cs) =
     (if a = CHR 0x5C \<and> b = CHR ''/'' then CHR ''/'' # unescape_slashes cs
      else a # unescape_slashes (b # cs))"
| "unescape_slashes cs = cs"

text \<open>
  The identifiers of a listing page (lines 76 to 85): for each block whose anchor has a
  non-empty \<^verbatim>\<open>onclick\<close> in which the pattern matches, the matched group.
\<close>

definition block_id :: "string option \<Rightarrow> string option" where
  "block_id onclick =
     (case onclick of
        None \<Rightarrow> None
      | Some oc \<Rightarrow> if oc = [] then None else quoted_match oc)"

definition contract_ids :: "string option list \<Rightarrow> string list" where
  "contract_ids contractNodes = List.map_filter block_id contractNodes"

text \<open>
  The download link of a token-exchange response (lines 117 to 126): the group of the
  pattern with its slashes unescaped, else the \<^verbatim>\<open>href\<close> of the first anchor.
\<close>

definition resolve_link :: "world \<Rightarrow> string \<Rightarrow> string option" where
  "resolve_link W code =
     (case href_match code of
        Some u \<Rightarrow> Some (unescape_slashes u)
      | None \<Rightarrow> anchor_href W code)"


subsection \<open>One listed contract (lines 95 to 154)\<close>

text \<open>
  Lines 128 to 141, entered with a truthy \<^verbatim>\<open>downloadUrl\<close>: fetch the document, write
  it, append the identifier to the cache log, add it to \<^verbatim>\<open>cachedIds\<close>, count it. A
  rejected promise leaves the \<^verbatim>\<open>try\<close> block for the \<^verbatim>\<open>catch\<close> of line 151. A file
  operation that fails is taken to leave the file as it was.
\<close>

definition fetch_and_record ::
  "world \<Rightarrow> string \<Rightarrow> string \<Rightarrow> string \<Rightarrow> string \<Rightarrow> run_state \<Rightarrow> run_state" where
  "fetch_and_record W client outputDir contractId downloadUrl s =
     (case getPdf W (trace s) client downloadUrl of
        Threw \<Rightarrow> count_failed (log_event (GetPdf client downloadUrl False) s)
      | Returned pdf \<Rightarrow>
          (let s1 = log_event (GetPdf client downloadUrl True) s;
               file = path_join outputDir (contractId @ ''.pdf'')
           in if \<not> writeFile_ok W (trace s1) file
              then count_failed (log_event (WriteFile file False) s1)
              else
                (let s2 = (log_event (WriteFile file True) s1)
                            \<lparr>files := (files s1)(file \<mapsto> pdf)\<rparr>;
                     line = contractId @ [CHR 0x0A]
                 in if \<not> appendFile_ok W (trace s2) CACHE_FILE
                    then count_failed (log_event (AppendFile CACHE_FILE line False) s2)
                    else
                      (let s3 = (log_event (AppendFile CACHE_FILE line True) s2)
                                  \<lparr>files := (files s2)(CACHE_FILE \<mapsto>
                                      (case files s2 CACHE_FILE of
                                         None \<Rightarrow> line
                                       | Some old \<Rightarrow> old @ line))\<rparr>;
                           s4 = (log_event (CacheAdd contractId) s3)
                                  \<lparr>cachedIds := insert contractId (cachedIds s3)\<rparr>
                       in s4\<lparr>downloaded := downloaded s4 + 1\<rparr>))))"

text \<open>
  Lines 116 to 149, on the body of the token-exchange response. \<^verbatim>\<open>code.match\<close> on a
  \<^verbatim>\<open>code\<close> that is not a string raises a \<^verbatim>\<open>TypeError\<close>, caught at line 151.
\<close>

definition resolve_item ::
  "world \<Rightarrow> string \<Rightarrow> string \<Rightarrow> string \<Rightarrow> captcha_body \<Rightarrow> run_state \<Rightarrow> run_state" where
  "resolve_item W client outputDir contractId data s =
     (case data of
        Falsy \<Rightarrow> count_failed s
      | Body status code \<Rightarrow>
          if status = Some ''1'' then
            (case code of
               None \<Rightarrow> count_failed s
             | Some c \<Rightarrow>
                 (case resolve_link W c of
                    None \<Rightarrow> count_failed s
                  | Some downloadUrl \<Rightarrow>
                      if downloadUrl \<noteq> []
                      then fetch_and_record W client outputDir contractId downloadUrl s
                      else count_failed s))
          else count_failed s)"

text \<open>
  The body of the \<^verbatim>\<open>for\<close> loop. The throttle delay, the progress bar and the console
  change nothing of the state and are left out.
\<close>

definition process_item ::
  "world \<Rightarrow> string \<Rightarrow> string \<Rightarrow> string \<Rightarrow> run_state \<Rightarrow> run_state" where
  "process_item W client outputDir contractId s0 =
     (let s = s0\<lparr>scraped := scraped s0 + 1\<rparr>
      in if contractId \<in> cachedIds s then s\<lparr>skipped := skipped s + 1\<rparr>
         else
           (case sbtCaptcha W (trace s) client contractId of
              Threw \<Rightarrow> count_failed (log_event (PostCaptcha client contractId False) s)
            | Returned data \<Rightarrow>
                resolve_item W client outputDir contractId data
                  (log_event (PostCaptcha client contractId True) s)))"

fun process_items ::
  "world \<Rightarrow> string \<Rightarrow> string \<Rightarrow> string list \<Rightarrow> run_state \<Rightarrow> run_state" where
  "process_items W client outputDir [] s = s"
| "process_items W client outputDir (contractId # rest) s =
     process_items W client outputDir rest (process_item W client outputDir contractId s)"

subsection \<open>One date window (scrapeRange)\<close>

text \<open>
  The \<^verbatim>\<open>while (hasNext)\<close> loop of lines 55 to 164, from page \<open>page\<close> on. \<open>Threw\<close> stands
  for a listing request that fails or an answer that \<^verbatim>\<open>cheerio\<close> cannot load; both end in
  the \<^verbatim>\<open>catch\<close> of line 160. The portal may answer every page with contracts, so the
  loop may run forever: the result is then \<open>None\<close>.
\<close>

partial_function (option) scrape_pages ::
  "world \<Rightarrow> string \<Rightarrow> string \<Rightarrow> string \<Rightarrow> options \<Rightarrow> string \<Rightarrow> nat \<Rightarrow> run_state
     \<Rightarrow> run_state option" where
  "scrape_pages W client fromDateStr toDateStr opts outputDir page s =
     (let payload = \<lparr>p_fromDate = fromDateStr, p_toDate = toDateStr,
                      p_department = o_department opts, p_bno = o_bno opts,
                      p_buyer_category = o_buyer_category opts, p_page = page\<rparr>
      in case listing W (trace s) client payload of
           Threw \<Rightarrow> Some (log_event (PostListing client payload Threw) s)
         | Returned contractNodes \<Rightarrow>
             (let s1 = log_event (PostListing client payload (Returned contractNodes)) s
              in if contractNodes = [] then Some s1
                 else if contract_ids contractNodes = [] then Some s1
                 else scrape_pages W client fromDateStr toDateStr opts outputDir (page + 1)
                        (process_items W client outputDir (contract_ids contractNodes) s1)))"

text \<open>
  An \<^verbatim>\<open>async\<close> function ends by resolving or by rejecting its promise; the state reached
  is kept in both cases, since what was written stays written.
\<close>

datatype outcome = Resolved run_state | Rejected run_state

fun final :: "outcome \<Rightarrow> run_state" where
  "final (Resolved s) = s"
| "final (Rejected s) = s"

definition scrapeRange ::
  "world \<Rightarrow> string \<Rightarrow> string \<Rightarrow> string \<Rightarrow> options \<Rightarrow> run_state \<Rightarrow> outcome option" where
  "scrapeRange W client fromDateStr toDateStr opts s =
     (let rangeFolder = fromDateStr @ ''_to_'' @ toDateStr;
          outputDir = path_join PDF_ROOT rangeFolder
      in if \<not> ensureDir_ok W (trace s) outputDir
         then Some (Rejected (log_event (EnsureDir outputDir False) s))
         else map_option Resolved
                (scrape_pages W client fromDateStr toDateStr opts outputDir 0
                   (log_event (ScrapingPeriod fromDateStr toDateStr)
                      ((log_event (EnsureDir outputDir True) s)
                         \<lparr>dirs := insert outputDir (dirs s)\<rparr>))))"

subsection \<open>The run (runScraper)\<close>

text \<open>
  Lines 217 to 241 for \<^verbatim>\<open>repeatTillDate\<close> set: what follows the window that ended at
  \<open>currentToStr\<close>. With an \<^verbatim>\<open>Invalid Date\<close> every comparison is false and both strings
  become \<^verbatim>\<open>NaN-NaN-NaN\<close>, which parses to an \<^verbatim>\<open>Invalid Date\<close> again: the loop goes on
  with that window for ever, unless a directory cannot be created.
\<close>

datatype plan = Finish | NextWindow string string

definition plan_next :: "jsdate \<Rightarrow> string \<Rightarrow> plan" where
  "plan_next today_date currentToStr =
     (case parseDate currentToStr of
        None \<Rightarrow> NextWindow ''NaN-NaN-NaN'' ''NaN-NaN-NaN''
      | Some lastEndDate \<Rightarrow>
          (let nextStartDate = addDays lastEndDate 1
           in if date_gt nextStartDate today_date then Finish
              else
                (let nextEndDate0 = addDays (addMonths nextStartDate 3) (- 1);
                     nextEndDate = (if date_gt nextEndDate0 today_date then today_date
                                    else nextEndDate0)
                 in if date_gt nextStartDate nextEndDate then Finish
                    else NextWindow (formatDate nextStartDate) (formatDate nextEndDate))))"

partial_function (option) run_loop ::
  "world \<Rightarrow> string \<Rightarrow> options \<Rightarrow> bool \<Rightarrow> string \<Rightarrow> string \<Rightarrow> run_state
     \<Rightarrow> outcome option" where
  "run_loop W client opts repeat currentFromStr currentToStr s =
     (case scrapeRange W client currentFromStr currentToStr opts s of
        None \<Rightarrow> None
      | Some (Rejected s') \<Rightarrow> Some (Rejected s')
      | Some (Resolved s') \<Rightarrow>
          if \<not> repeat then Some (Resolved s')
          else
            (case plan_next (today W) currentToStr of
               Finish \<Rightarrow> Some (Resolved s')
             | NextWindow nextFromStr nextToStr \<Rightarrow>
                 run_loop W client opts repeat nextFromStr nextToStr s'))"

text \<open>
  The completion cache read from the log (line 189):
  \<^verbatim>\<open>content.split('\n').map(l => l.trim()).filter(Boolean)\<close>.
\<close>

definition cache_lines :: "string \<Rightarrow> string list" where
  "cache_lines content = filter (\<lambda>l. l \<noteq> []) (map trim (split_on (CHR 0x0A) content))"

definition runScraper :: "world \<Rightarrow> answers \<Rightarrow> disk \<Rightarrow> outcome option" where
  "runScraper W a d =
     (let client = cookie a;
          s0 = \<lparr>dirs = dirs d, files = files d, scraped = 0, downloaded = 0, skipped = 0,
                failed = 0, cachedIds = {}, trace = []\<rparr>
      in if \<not> ensureDir_ok W (trace s0) PDF_ROOT
         then Some (Rejected (log_event (EnsureDir PDF_ROOT False) s0))
         else
           (let s1 = (log_event (EnsureDir PDF_ROOT True) s0)
                       \<lparr>dirs := insert PDF_ROOT (dirs s0)\<rparr>;
                opts = \<lparr>o_throttleTime = throttleTime a, o_department = department a,
                         o_bno = bno a, o_buyer_category = buyer_category a\<rparr>
            in case files s1 CACHE_FILE of
                 None \<Rightarrow> run_loop W client opts (repeatTillDate a) (fromDate a) (toDate a) s1
               | Some content \<Rightarrow>
                   if \<not> readFile_ok W (trace s1) CACHE_FILE
                   then Some (Rejected (log_event (ReadFile CACHE_FILE False) s1))
                   else run_loop W client opts (repeatTillDate a) (fromDate a) (toDate a)
                          ((log_event (ReadFile CACHE_FILE True) s1)
                             \<lparr>cachedIds := set (cache_lines content)\<rparr>)))"

subsection \<open>The prompt (startScraper in index.js)\<close>

text \<open>
  The answers come from \<^verbatim>\<open>inquirer.prompt\<close>. An input question takes the line the user
  types, or the default when the line is empty, passes it through \<^verbatim>\<open>filter\<close> and hands
  it to \<^verbatim>\<open>validate\<close>; when \<^verbatim>\<open>validate\<close> does not return \<^verbatim>\<open>true\<close> the question is asked
  again. \<open>typed\<close> holds the lines the user types, in order; the result is \<open>None\<close> when
  the lines run out before every question has its answer (the prompt keeps waiting).
\<close>

text \<open>\<^verbatim>\<open>validate: (input) => input ? true : 'Cookie cannot be empty'\<close>\<close>

definition validate_cookie :: "string \<Rightarrow> bool" where
  "validate_cookie input = (input \<noteq> [])"

text \<open>\<^verbatim>\<open>validate: (input) => /^\d{2}-\d{2}-\d{4}$/.test(input) ? true : 'Invalid format'\<close>\<close>

definition validate_date :: "string \<Rightarrow> bool" where
  "validate_date input =
     (case input of
        [d1, d2, s1, m1, m2, s2, y1, y2, y3, y4] \<Rightarrow>
          is_digit d1 \<and> is_digit d2 \<and> s1 = CHR ''-'' \<and> is_digit m1 \<and> is_digit m2 \<and>
          s2 = CHR ''-'' \<and> is_digit y1 \<and> is_digit y2 \<and> is_digit y3 \<and> is_digit y4
      | _ \<Rightarrow> False)"

text \<open>
  \<^verbatim>\<open>filter: (input) => parseInt(input, 10)\<close>: leading blanks and one sign are skipped, the
  digits that follow are read, and the result is \<^verbatim>\<open>NaN\<close> (\<open>None\<close>) when there is none.
\<close>

definition parseInt10 :: "string \<Rightarrow> int option" where
  "parseInt10 input =
     (let s = dropWhile is_space input;
          r = (case s of c # cs \<Rightarrow> if c = CHR ''-'' \<or> c = CHR ''+'' then cs else s | [] \<Rightarrow> s);
          ds = takeWhile is_digit r;
          v = foldl (\<lambda>a c. 10 * a + int (digit_val c)) 0 ds
      in if ds = [] then None
         else Some (case s of c # cs \<Rightarrow> if c = CHR ''-'' then - v else v | [] \<Rightarrow> v))"

fun ask_input ::
  "(string \<Rightarrow> bool) \<Rightarrow> string \<Rightarrow> string list \<Rightarrow> (string \<times> string list) option" where
  "ask_input validate dflt [] = None"
| "ask_input validate dflt (line # rest) =
     (let input = (if line = [] then dflt else line)
      in if validate input then Some (input, rest) else ask_input validate dflt rest)"

text \<open>A confirm question: the default on an empty line, else whether the line starts with y.\<close>

definition confirm_answer :: "bool \<Rightarrow> string \<Rightarrow> bool" where
  "confirm_answer dflt line =
     (case line of [] \<Rightarrow> dflt | c # cs \<Rightarrow> c = CHR ''y'' \<or> c = CHR ''Y'')"

definition prompt_answers :: "string list \<Rightarrow> answers option" where
  "prompt_answers typed =
     do {
       (cookie_in, r1) \<leftarrow> ask_input validate_cookie [] typed;
       (throttle_in, r2) \<leftarrow> ask_input (\<lambda>input. True) ''500'' r1;
       (from_in, r3) \<leftarrow> ask_input validate_date ''01-01-2024'' r2;
       (to_in, r4) \<leftarrow> ask_input validate_date ''31-03-2024'' r3;
       (department_in, r5) \<leftarrow> ask_input (\<lambda>input. True) [] r4;
       (bno_in, r6) \<leftarrow> ask_input (\<lambda>input. True) [] r5;
       (category_in, r7) \<leftarrow>
         ask_input (\<lambda>input. True) ''home_medi_pa46613086_me45117086_el71535221'' r6;
       (case r7 of
          [] \<Rightarrow> None
        | line # rest \<Rightarrow>
            Some \<lparr>cookie = cookie_in, throttleTime = parseInt10 throttle_in,
                  fromDate = from_in, toDate = to_in, department = department_in,
                  bno = bno_in, buyer_category = category_in,
                  repeatTillDate = confirm_answer False line\<rparr>)
     }"

definition startScraper :: "world \<Rightarrow> string list \<Rightarrow> disk \<Rightarrow> outcome option" where
  "startScraper W typed d =
     (case prompt_answers typed of
        None \<Rightarrow> None
      | Some a \<Rightarrow> runScraper W a d)"

fun resolved :: "outcome \<Rightarrow> bool" where
  "resolved (Resolved s) = True"
| "resolved (Rejected s) = False"

section \<open>Notions used to state the properties\<close>

text \<open>The identifiers that the listing pages received so far have shown, in order.\<close>

fun listed_in :: "event \<Rightarrow> string list" where
  "listed_in (PostListing c pl (Returned contractNodes)) = contract_ids contractNodes"
| "listed_in e = []"

definition listed_ids :: "event list \<Rightarrow> string list" where
  "listed_ids tr = concat (map listed_in tr)"

text \<open>
  What a run can do to the state between two of its steps: announce a window, create a
  directory, request a listing page, or handle one contract that a page has listed.
\<close>

inductive crawl_step :: "world \<Rightarrow> string \<Rightarrow> run_state \<Rightarrow> run_state \<Rightarrow> bool"
  for W :: world and client :: string where
  ensure: "crawl_step W client s (log_event (EnsureDir dir ok) s)"
| mkdir: "crawl_step W client s (s\<lparr>dirs := D\<rparr>)"
| announce: "crawl_step W client s (log_event (ScrapingPeriod f t) s)"
| page: "crawl_step W client s (log_event (PostListing client pl r) s)"
| item: "cid \<in> set (listed_ids (trace s)) \<Longrightarrow>
         crawl_step W client s (process_item W client dir cid s)"


text \<open>The completion cache as a run loads it from the log on disk.\<close>

definition loaded_ids :: "disk \<Rightarrow> string set" where
  "loaded_ids d =
     (case files d CACHE_FILE of
        None \<Rightarrow> {}
      | Some content \<Rightarrow> set (cache_lines content))"

definition options_of :: "answers \<Rightarrow> options" where
  "options_of a = \<lparr>o_throttleTime = throttleTime a, o_department = department a,
                    o_bno = bno a, o_buyer_category = buyer_category a\<rparr>"


text \<open>The text of the cache log on disk (empty when the file does not exist).\<close>

definition cache_log :: "run_state \<Rightarrow> string" where
  "cache_log s = (case files s CACHE_FILE of None \<Rightarrow> [] | Some content \<Rightarrow> content)"

text \<open>
  The order in which a download is recorded: an append to a file is the append of one
  newline-terminated identifier to the cache log and comes right after the successful
  write of that identifier's document; the insertion of an identifier into the
  in-memory set comes right after the successful append of its line. \<open>prev\<close> is the
  event just before the list.
\<close>

definition ends_with :: "string \<Rightarrow> string \<Rightarrow> bool" where
  "ends_with xs suf = (length suf \<le> length xs \<and> drop (length xs - length suf) xs = suf)"

fun record_order :: "event option \<Rightarrow> event list \<Rightarrow> bool" where
  "record_order prev [] = True"
| "record_order prev (e # es) =
     ((case e of
         AppendFile p l ok \<Rightarrow>
           p = CACHE_FILE \<and> l \<noteq> [] \<and> last l = CHR 0x0A \<and>
           (case prev of
              Some (WriteFile file True) \<Rightarrow> ends_with file (''/'' @ butlast l @ ''.pdf'')
            | _ \<Rightarrow> False)
       | CacheAdd cid \<Rightarrow> prev = Some (AppendFile CACHE_FILE (cid @ [CHR 0x0A]) True)
       | _ \<Rightarrow> True) \<and>
      record_order (Some e) es)"

text \<open>The events that mark a contract as complete, on disk or in memory.\<close>

fun is_marking :: "event \<Rightarrow> bool" where
  "is_marking (AppendFile p l ok) = ok"
| "is_marking (CacheAdd cid) = True"
| "is_marking e = False"



definition page_payload :: "string \<Rightarrow> string \<Rightarrow> options \<Rightarrow> nat \<Rightarrow> payload" where
  "page_payload fromDateStr toDateStr opts page =
     \<lparr>p_fromDate = fromDateStr, p_toDate = toDateStr, p_department = o_department opts,
      p_bno = o_bno opts, p_buyer_category = o_buyer_category opts, p_page = page\<rparr>"






text \<open>The windows announced among some events.\<close>

fun period_of :: "event \<Rightarrow> (string \<times> string) list" where
  "period_of (ScrapingPeriod f t) = [(f, t)]"
| "period_of e = []"

definition periods :: "event list \<Rightarrow> (string \<times> string) list" where
  "periods tr = concat (map period_of tr)"








subsection \<open>A small portal to run the engine on\<close>

definition demo_onclick :: "string \<Rightarrow> string" where
  "demo_onclick cid = ''show('' @ [CHR 0x27] @ cid @ [CHR 0x27] @ '')''"

definition demo_code :: string where
  "demo_code = ''<a href='' @ [CHR 0x22] @ ''/doc/1.pdf'' @ [CHR 0x22] @ ''>''"

text \<open>
  Today is 2 April 2024, noon. The window that starts on 01-01-2024 lists the contracts
  A1 and B2 on page 0 and nothing on page 1; every other window is empty. The portal
  serves the first token exchange of a session and rejects the later ones, as a rate
  limit would.
\<close>

definition demo_world :: world where
  "demo_world =
     \<lparr>today = \<lparr>fullYear = 2024, monthIdx = 3, dayOfMonth = 2, msOfDay = 43200000\<rparr>,
      listing = (\<lambda>h c p. if p_fromDate p = ''01-01-2024'' \<and> p_page p = 0
                   then Returned [Some (demo_onclick ''A1''), None, Some (demo_onclick ''B2'')]
                   else Returned []),
      sbtCaptcha = (\<lambda>h c cid.
                      if list_ex (\<lambda>e. case e of PostCaptcha _ _ _ \<Rightarrow> True | _ \<Rightarrow> False) h
                      then Returned (Body (Some ''0'') None)
                      else Returned (Body (Some ''1'') (Some demo_code))),
      getPdf = (\<lambda>h c u. Returned ''%PDF''),
      anchor_href = (\<lambda>code. None),
      ensureDir_ok = (\<lambda>h p. True),
      readFile_ok = (\<lambda>h p. True),
      writeFile_ok = (\<lambda>h p. True),
      appendFile_ok = (\<lambda>h p. True)\<rparr>"

definition demo_answers :: answers where
  "demo_answers = \<lparr>cookie = ''sid=1'', throttleTime = Some 500, fromDate = ''01-01-2024'',
     toDate = ''31-03-2024'', department = [], bno = [], buyer_category = ''home'',
     repeatTillDate = True\<rparr>"

definition empty_disk :: disk where
  "empty_disk = \<lparr>dirs = {}, files = Map.empty\<rparr>"

definition demo_state :: run_state where
  "demo_state = \<lparr>dirs = {}, files = Map.empty, scraped = 0, downloaded = 0, skipped = 0,
     failed = 0, cachedIds = {}, trace = []\<rparr>"




text \<open>Answers that the prompt would refuse: no cookie, dates that are no dates.\<close>

definition bad_answers :: answers where
  "bad_answers = \<lparr>cookie = [], throttleTime = None, fromDate = ''yesterday'',
     toDate = ''today'', department = [], bno = [], buyer_category = [],
     repeatTillDate = False\<rparr>"

text \<open>
  What a user may type: an empty line for the cookie, then a cookie, the default throttle
  time, a date in a wrong format, two dates in the right one, two defaults, a buyer
  category, and yes.
\<close>

definition demo_typed :: "string list" where
  "demo_typed = [[], ''sid=1'', [], ''1-1-2024'', ''01-01-2024'', ''31-03-2024'', [], [],
     ''home'', ''y'']"

declare roll_days.simps [simp del]

declare digits.simps [simp del]

declare scrape_pages.simps [code]

declare run_loop.simps [code]

section \<open>Properties of the crawl engine\<close>

subsection \<open>Month arithmetic\<close>

lemma dim_bounds: "28 \<le> days_in_month y m \<and> days_in_month y m \<le> 31"
  by (simp add: days_in_month_def)

lemma roll_days_in_range:
  "1 \<le> d \<Longrightarrow> d \<le> days_in_month y m \<Longrightarrow> roll_days y m d = (y, m, d)"
  by (subst roll_days.simps) simp

lemma roll_days_zero:
  "roll_days y m 0 =
     (prev_month_year y m, prev_month m, days_in_month (prev_month_year y m) (prev_month m))"
proof -
  have "1 \<le> days_in_month (prev_month_year y m) (prev_month m)"
    using dim_bounds [of "prev_month_year y m" "prev_month m"] by linarith
  then show ?thesis
    by (subst roll_days.simps) (simp add: roll_days_in_range)
qed

lemma roll_days_over:
  assumes "days_in_month y m < d" and "d \<le> days_in_month y m + 28"
  shows "roll_days y m d = (next_month_year y m, next_month m, d - days_in_month y m)"
proof -
  have "d - days_in_month y m \<le> days_in_month (next_month_year y m) (next_month m)"
    using assms dim_bounds [of "next_month_year y m" "next_month m"] by linarith
  moreover have "1 \<le> d - days_in_month y m" and "\<not> d < 1"
    using assms dim_bounds [of y m] by linarith+
  ultimately show ?thesis
    using assms by (subst roll_days.simps) (simp add: roll_days_in_range)
qed

lemma prev_next_month:
  "0 \<le> m \<Longrightarrow> m \<le> 11 \<Longrightarrow>
   prev_month (next_month m) = m \<and> prev_month_year (next_month_year y m) (next_month m) = y"
  by (auto simp: prev_month_def next_month_def prev_month_year_def next_month_year_def)

text \<open>
  \<^verbatim>\<open>addMonths\<close> on any date with a day from 1 to 31: the month moves by \<open>n\<close>, the year
  follows, and the day is kept when the new month has it and is the last day of the new
  month otherwise.
\<close>

lemma addMonths_fields:
  assumes "1 \<le> dayOfMonth t" and "dayOfMonth t \<le> 31"
  shows "addMonths t n =
     t\<lparr>fullYear := fullYear t + (monthIdx t + n) div 12,
       monthIdx := (monthIdx t + n) mod 12,
       dayOfMonth := min (dayOfMonth t)
          (days_in_month (fullYear t + (monthIdx t + n) div 12) ((monthIdx t + n) mod 12))\<rparr>"
proof -
  let ?y = "fullYear t + (monthIdx t + n) div 12"
  let ?m = "(monthIdx t + n) mod 12"
  have m: "0 \<le> ?m" "?m \<le> 11" by simp_all
  show ?thesis
  proof (cases "dayOfMonth t \<le> days_in_month ?y ?m")
    case True
    then show ?thesis using assms
      by (simp add: addMonths_def setMonth_def MakeDay_def roll_days_in_range min_def)
  next
    case False
    then have over: "days_in_month ?y ?m < dayOfMonth t" by simp
    have le: "dayOfMonth t \<le> days_in_month ?y ?m + 28"
      using assms dim_bounds [of ?y ?m] by linarith
    have sm: "setMonth t (monthIdx t + n) =
        t\<lparr>fullYear := next_month_year ?y ?m, monthIdx := next_month ?m,
          dayOfMonth := dayOfMonth t - days_in_month ?y ?m\<rparr>"
      by (simp add: setMonth_def MakeDay_def roll_days_over [OF over le])
    have nm: "0 \<le> next_month ?m" "next_month ?m \<le> 11"
      using m by (auto simp: next_month_def)
    have ne: "dayOfMonth t - days_in_month ?y ?m \<noteq> dayOfMonth t"
      using dim_bounds [of ?y ?m] by linarith
    have "setDate (t\<lparr>fullYear := next_month_year ?y ?m, monthIdx := next_month ?m,
          dayOfMonth := dayOfMonth t - days_in_month ?y ?m\<rparr>) 0 =
        t\<lparr>fullYear := ?y, monthIdx := ?m, dayOfMonth := days_in_month ?y ?m\<rparr>"
      using nm prev_next_month [OF m, of ?y]
      by (simp add: setDate_def MakeDay_def roll_days_zero)
    then show ?thesis using over ne
      by (simp add: addMonths_def sm min_def Let_def)
  qed
qed

text \<open>
  Claim C4. Advancing a date by three months clamps the day to the new month: the result
  lies in the month three months on, on the same day when that month has it and on the
  month's last day when it has not; from 31-01-2024 the step lands on 30-04-2024, the
  last day of April, and not in May.
\<close>

theorem addMonths_three_clamps:
  assumes "valid_date t"
  shows "fullYear (addMonths t 3) = fullYear t + (monthIdx t + 3) div 12 \<and>
         monthIdx (addMonths t 3) = (monthIdx t + 3) mod 12 \<and>
         dayOfMonth (addMonths t 3) =
           (if days_in_month (fullYear (addMonths t 3)) (monthIdx (addMonths t 3)) < dayOfMonth t
            then days_in_month (fullYear (addMonths t 3)) (monthIdx (addMonths t 3))
            else dayOfMonth t) \<and>
         msOfDay (addMonths t 3) = msOfDay t \<and>
         map_option (\<lambda>d. formatDate (addMonths d 3)) (parseDate ''31-01-2024'')
           = Some ''30-04-2024''"
proof -
  have d: "1 \<le> dayOfMonth t" "dayOfMonth t \<le> 31"
    using assms dim_bounds [of "fullYear t" "monthIdx t"] by (auto simp: valid_date_def)
  have "map_option (\<lambda>d. formatDate (addMonths d 3)) (parseDate ''31-01-2024'')
          = Some ''30-04-2024''"
    by code_simp
  then show ?thesis
    by (simp add: addMonths_fields [OF d] min_def)
qed

theorem addMonths_three_clamps_witness:
  "valid_date \<lparr>fullYear = 2024, monthIdx = 0, dayOfMonth = 31, msOfDay = 0\<rparr> \<and>
   addMonths \<lparr>fullYear = 2024, monthIdx = 0, dayOfMonth = 31, msOfDay = 0\<rparr> 3
     = \<lparr>fullYear = 2024, monthIdx = 3, dayOfMonth = 30, msOfDay = 0\<rparr>"
proof -
  let ?t = "\<lparr>fullYear = 2024, monthIdx = 0, dayOfMonth = 31, msOfDay = 0\<rparr>"
  have v: "valid_date ?t"
    by (simp add: valid_date_def days_in_month_def)
  have "days_in_month 2024 3 = 30"
    by (simp add: days_in_month_def)
  with addMonths_three_clamps [OF v] have
    "fullYear (addMonths ?t 3) = 2024 \<and> monthIdx (addMonths ?t 3) = 3 \<and>
     dayOfMonth (addMonths ?t 3) = 30 \<and> msOfDay (addMonths ?t 3) = 0"
    by simp
  then have "addMonths ?t 3 = \<lparr>fullYear = 2024, monthIdx = 3, dayOfMonth = 30, msOfDay = 0\<rparr>"
    by (cases "addMonths ?t 3") simp
  with v show ?thesis by simp
qed

subsection \<open>Every run is a sequence of crawl steps\<close>

text \<open>
  The two loops are partial functions; facts about a run that returns are proved by
  induction over the unfolding of the loop.
\<close>

lemmas scrape_pages_induct = scrape_pages.raw_induct [rotated 1, consumes 1, case_names step]
lemmas run_loop_induct = run_loop.raw_induct [rotated 1, consumes 1, case_names step]

lemma process_item_listed:
  "listed_ids (trace (process_item W client dir cid s)) = listed_ids (trace s)"
  by (auto simp: process_item_def resolve_item_def fetch_and_record_def log_event_def
      count_failed_def listed_ids_def Let_def
      split: attempt.splits captcha_body.splits option.splits)

lemma process_items_steps:
  assumes "set ids \<subseteq> set (listed_ids (trace s))"
  shows "(crawl_step W client)\<^sup>*\<^sup>* s (process_items W client dir ids s)"
  using assms
proof (induction ids arbitrary: s)
  case Nil
  show ?case by simp
next
  case (Cons cid ids)
  then have "crawl_step W client s (process_item W client dir cid s)"
    by (intro crawl_step.item) simp
  moreover from Cons.prems have
    "set ids \<subseteq> set (listed_ids (trace (process_item W client dir cid s)))"
    by (simp add: process_item_listed)
  ultimately show ?case
    using Cons.IH [of "process_item W client dir cid s"]
    by (simp add: converse_rtranclp_into_rtranclp)
qed

lemma scrape_pages_steps:
  assumes "scrape_pages W client f t opts dir page s = Some s'"
  shows "(crawl_step W client)\<^sup>*\<^sup>* s s'"
  using assms
proof (induction W client f t opts dir page s s' rule: scrape_pages_induct)
  case (step sp W c f t opts dir p s y)
  let ?pl = "\<lparr>p_fromDate = f, p_toDate = t, p_department = o_department opts,
               p_bno = o_bno opts, p_buyer_category = o_buyer_category opts, p_page = p\<rparr>"
  show ?case
  proof (cases "listing W (trace s) c ?pl")
    case Threw
    with step(2) have "y = log_event (PostListing c ?pl Threw) s" by simp
    then show ?thesis by (simp add: crawl_step.page r_into_rtranclp)
  next
    case (Returned nodes)
    let ?s1 = "log_event (PostListing c ?pl (Returned nodes)) s"
    have s1: "crawl_step W c s ?s1" by (rule crawl_step.page)
    show ?thesis
    proof (cases "nodes = [] \<or> contract_ids nodes = []")
      case True
      with step(2) Returned have "y = ?s1" by (auto simp: Let_def split: if_splits)
      with s1 show ?thesis by (simp add: r_into_rtranclp)
    next
      case False
      with step(2) Returned have
        "sp W c f t opts dir (p + 1) (process_items W c dir (contract_ids nodes) ?s1) = Some y"
        by (simp add: Let_def)
      then have "(crawl_step W c)\<^sup>*\<^sup>* (process_items W c dir (contract_ids nodes) ?s1) y"
        by (rule step(1))
      moreover have "set (contract_ids nodes) \<subseteq> set (listed_ids (trace ?s1))"
        by (simp add: listed_ids_def log_event_def)
      from process_items_steps [OF this, of W c dir]
      have "(crawl_step W c)\<^sup>*\<^sup>* ?s1 (process_items W c dir (contract_ids nodes) ?s1)" .
      ultimately show ?thesis using s1
        by (meson converse_rtranclp_into_rtranclp rtranclp_trans)
    qed
  qed
qed

lemma scrapeRange_steps:
  assumes "scrapeRange W client f t opts s = Some out"
  shows "(crawl_step W client)\<^sup>*\<^sup>* s (final out)"
proof -
  let ?dir = "path_join PDF_ROOT (f @ ''_to_'' @ t)"
  show ?thesis
  proof (cases "ensureDir_ok W (trace s) ?dir")
    case False
    with assms have "out = Rejected (log_event (EnsureDir ?dir False) s)"
      by (auto simp: scrapeRange_def Let_def)
    then show ?thesis by (simp add: crawl_step.ensure r_into_rtranclp)
  next
    case True
    let ?s1 = "log_event (EnsureDir ?dir True) s"
    let ?s2 = "?s1\<lparr>dirs := insert ?dir (dirs s)\<rparr>"
    let ?s3 = "log_event (ScrapingPeriod f t) ?s2"
    from assms True obtain s' where
      sp: "scrape_pages W client f t opts ?dir 0 ?s3 = Some s'" and out: "out = Resolved s'"
      by (auto simp: scrapeRange_def Let_def)
    have "crawl_step W client s ?s1" by (rule crawl_step.ensure)
    moreover have "crawl_step W client ?s1 ?s2" by (rule crawl_step.mkdir)
    moreover have "crawl_step W client ?s2 ?s3" by (rule crawl_step.announce)
    moreover note scrape_pages_steps [OF sp]
    ultimately show ?thesis using out
      by (simp add: converse_rtranclp_into_rtranclp)
  qed
qed

lemma run_loop_steps:
  assumes "run_loop W client opts rep f t s = Some out"
  shows "(crawl_step W client)\<^sup>*\<^sup>* s (final out)"
  using assms
proof (induction W client opts rep f t s out rule: run_loop_induct)
  case (step rl W c opts rep f t s out)
  from step(2) obtain o1 where sr: "scrapeRange W c f t opts s = Some o1"
    by (cases "scrapeRange W c f t opts s") auto
  note st = scrapeRange_steps [OF sr]
  show ?case
  proof (cases o1)
    case (Rejected s')
    with step(2) sr have "out = o1" by simp
    with st show ?thesis by simp
  next
    case (Resolved s')
    show ?thesis
    proof (cases "\<not> rep \<or> plan_next (today W) t = Finish")
      case True
      with step(2) sr Resolved have "out = o1" by (auto split: if_splits)
      with st show ?thesis by simp
    next
      case False
      with step(2) sr Resolved obtain f' t' where
        "plan_next (today W) t = NextWindow f' t'" and "rl W c opts rep f' t' s' = Some out"
        by (cases "plan_next (today W) t") (auto split: if_splits)
      from step(1) [OF this(2)] st Resolved show ?thesis
        by simp
    qed
  qed
qed

lemma runScraper_start:
  assumes "runScraper W a d = Some out"
  shows "\<exists>s1. scraped s1 = 0 \<and> downloaded s1 = 0 \<and> skipped s1 = 0 \<and> failed s1 = 0 \<and>
           files s1 = files d \<and>
           set (trace s1) \<subseteq> {EnsureDir PDF_ROOT True, EnsureDir PDF_ROOT False,
                               ReadFile CACHE_FILE True, ReadFile CACHE_FILE False} \<and>
           (out = Rejected s1 \<or>
            (cachedIds s1 = loaded_ids d \<and>
             run_loop W (cookie a) (options_of a) (repeatTillDate a) (fromDate a) (toDate a) s1
               = Some out))"
proof -
  let ?s0 = "\<lparr>dirs = dirs d, files = files d, scraped = 0, downloaded = 0, skipped = 0,
              failed = 0, cachedIds = {}, trace = []\<rparr>"
  let ?s1 = "(log_event (EnsureDir PDF_ROOT True) ?s0)\<lparr>dirs := insert PDF_ROOT (dirs ?s0)\<rparr>"
  show ?thesis
  proof (cases "ensureDir_ok W [] PDF_ROOT")
    case False
    with assms have "out = Rejected (log_event (EnsureDir PDF_ROOT False) ?s0)"
      by (simp add: runScraper_def Let_def)
    then show ?thesis
      by (intro exI [of _ "log_event (EnsureDir PDF_ROOT False) ?s0"]) (simp add: log_event_def)
  next
    case True
    show ?thesis
    proof (cases "files d CACHE_FILE")
      case None
      with assms True have
        "run_loop W (cookie a) (options_of a) (repeatTillDate a) (fromDate a) (toDate a) ?s1
           = Some out"
        by (simp add: runScraper_def Let_def options_of_def log_event_def)
      with None show ?thesis
        by (intro exI [of _ ?s1]) (simp add: log_event_def loaded_ids_def)
    next
      case (Some content)
      show ?thesis
      proof (cases "readFile_ok W [EnsureDir PDF_ROOT True] CACHE_FILE")
        case False
        with assms True Some have "out = Rejected (log_event (ReadFile CACHE_FILE False) ?s1)"
          by (simp add: runScraper_def Let_def log_event_def)
        then show ?thesis
          by (intro exI [of _ "log_event (ReadFile CACHE_FILE False) ?s1"])
             (simp add: log_event_def)
      next
        case rd: True
        let ?s2 = "(log_event (ReadFile CACHE_FILE True) ?s1)
                     \<lparr>cachedIds := set (cache_lines content)\<rparr>"
        from assms True Some rd have
          "run_loop W (cookie a) (options_of a) (repeatTillDate a) (fromDate a) (toDate a) ?s2
             = Some out"
          by (simp add: runScraper_def Let_def options_of_def log_event_def)
        with Some show ?thesis
          by (intro exI [of _ ?s2]) (simp add: log_event_def loaded_ids_def)
      qed
    qed
  qed
qed

subsection \<open>The counters\<close>






lemma demo_run_result:
  "(case runScraper demo_world demo_answers empty_disk of
      None \<Rightarrow> False
    | Some out \<Rightarrow>
        scraped (final out) = 2 \<and> downloaded (final out) = 1 \<and> skipped (final out) = 0 \<and>
        failed (final out) = 1 \<and> cachedIds (final out) = {''A1''} \<and>
        CacheAdd ''A1'' \<in> set (trace (final out)) \<and>
        periods (trace (final out))
          = [(''01-01-2024'', ''31-03-2024''), (''01-04-2024'', ''02-04-2024'')])"
  by code_simp




subsection \<open>The resolver\<close>

lemma pdf_path_not_cache: "path_join dir (cid @ ''.pdf'') \<noteq> CACHE_FILE"
proof
  assume "path_join dir (cid @ ''.pdf'') = CACHE_FILE"
  then have "last (path_join dir (cid @ ''.pdf'')) = last CACHE_FILE" by simp
  then show False by (simp add: path_join_def CACHE_FILE_def)
qed



subsection \<open>The order of write, append and insertion\<close>

lemma ends_with_append: "ends_with (xs @ suf) suf"
  by (simp add: ends_with_def)

lemma record_order_append:
  "record_order p (xs @ ys) =
     (record_order p xs \<and> record_order (if xs = [] then p else Some (last xs)) ys)"
  by (induction xs arbitrary: p) auto

lemma process_item_trace:
  "\<exists>new. trace (process_item W client dir cid s) = trace s @ new \<and>
      (\<forall>q. record_order q new) \<and>
      ((\<not> list_ex is_marking new \<and>
        cachedIds (process_item W client dir cid s) = cachedIds s \<and>
        cache_log (process_item W client dir cid s) = cache_log s) \<or>
       ((\<exists>pre. new = pre @ [WriteFile (path_join dir (cid @ ''.pdf'')) True,
                             AppendFile CACHE_FILE (cid @ [CHR 0x0A]) True, CacheAdd cid] \<and>
               \<not> list_ex is_marking pre) \<and>
        cachedIds (process_item W client dir cid s) = insert cid (cachedIds s) \<and>
        cache_log (process_item W client dir cid s) = cache_log s @ cid @ [CHR 0x0A] \<and>
        files (process_item W client dir cid s) (path_join dir (cid @ ''.pdf'')) \<noteq> None))"
proof -
  have e: "ends_with (path_join dir (cid @ ''.pdf'')) (''/'' @ cid @ ''.pdf'')"
    using ends_with_append [of dir "''/'' @ cid @ ''.pdf''"] by (simp add: path_join_def)
  show ?thesis
    using pdf_path_not_cache [of dir cid] e
    by (auto simp: process_item_def resolve_item_def fetch_and_record_def log_event_def
        count_failed_def cache_log_def Let_def
        split: attempt.splits captcha_body.splits option.splits)
qed


lemma record_order_plain:
  assumes "\<forall>e\<in>set tr. case e of AppendFile p l ok \<Rightarrow> False | CacheAdd c \<Rightarrow> False | _ \<Rightarrow> True"
  shows "record_order q tr"
  using assms by (induction tr arbitrary: q) (auto split: event.splits)

lemma crawl_step_record_order:
  assumes "crawl_step W client s s'" and "record_order None (trace s)"
  shows "record_order None (trace s')"
  using assms
proof (cases rule: crawl_step.cases)
  case (item cid dir)
  from process_item_trace [of W client dir cid s] obtain new where
    "trace (process_item W client dir cid s) = trace s @ new" and "\<forall>q. record_order q new"
    by blast
  with item assms(2) show ?thesis
    by (simp add: record_order_append)
qed (auto simp: log_event_def record_order_append)

lemma steps_record_order:
  assumes "(crawl_step W client)\<^sup>*\<^sup>* s s'" and "record_order None (trace s)"
  shows "record_order None (trace s')"
  using assms by (induction rule: rtranclp_induct) (auto intro: crawl_step_record_order)

text \<open>
  Claim C3. Handling one contract either marks nothing (no successful append, no
  insertion, set and log unchanged) or ends with exactly these three events in this
  order: the successful write of the document, the successful append of the identifier
  as one newline-terminated line to the cache log, the insertion into the in-memory set.
  Over a whole run, every append comes right after the successful write of that
  contract's document and every insertion right after the successful append of its line,
  so a run cut before the append has marked nothing.
\<close>

theorem record_after_write:
  "(\<exists>new. trace (process_item W client dir cid s) = trace s @ new \<and>
      record_order None new \<and>
      ((\<not> list_ex is_marking new \<and>
        cachedIds (process_item W client dir cid s) = cachedIds s \<and>
        cache_log (process_item W client dir cid s) = cache_log s) \<or>
       ((\<exists>pre. new = pre @ [WriteFile (path_join dir (cid @ ''.pdf'')) True,
                             AppendFile CACHE_FILE (cid @ [CHR 0x0A]) True, CacheAdd cid] \<and>
               \<not> list_ex is_marking pre) \<and>
        cachedIds (process_item W client dir cid s) = insert cid (cachedIds s) \<and>
        cache_log (process_item W client dir cid s) = cache_log s @ cid @ [CHR 0x0A] \<and>
        files (process_item W client dir cid s) (path_join dir (cid @ ''.pdf'')) \<noteq> None))) \<and>
   (runScraper W a d = Some out \<longrightarrow> record_order None (trace (final out)))"
proof -
  have run: "record_order None (trace (final out))" if r: "runScraper W a d = Some out"
  proof -
    from runScraper_start [OF r] obtain s1 where
      t: "set (trace s1) \<subseteq> {EnsureDir PDF_ROOT True, EnsureDir PDF_ROOT False,
                               ReadFile CACHE_FILE True, ReadFile CACHE_FILE False}" and
      c: "out = Rejected s1 \<or>
          run_loop W (cookie a) (options_of a) (repeatTillDate a) (fromDate a) (toDate a) s1
            = Some out"
      by blast
    from t have b: "record_order None (trace s1)"
      by (intro record_order_plain) auto
    from c show ?thesis
    proof
      assume "out = Rejected s1"
      with b show ?thesis by simp
    next
      assume "run_loop W (cookie a) (options_of a) (repeatTillDate a) (fromDate a) (toDate a) s1
            = Some out"
      from steps_record_order [OF run_loop_steps [OF this] b] show ?thesis .
    qed
  qed
  from process_item_trace [of W client dir cid s] run show ?thesis
    by blast
qed

theorem record_after_write_witness:
  "\<exists>out. runScraper demo_world demo_answers empty_disk = Some out \<and>
     CacheAdd ''A1'' \<in> set (trace (final out)) \<and> record_order None (trace (final out))"
proof -
  from demo_run_result obtain out where
    r: "runScraper demo_world demo_answers empty_disk = Some out" and
    m: "CacheAdd ''A1'' \<in> set (trace (final out))"
    by (cases "runScraper demo_world demo_answers empty_disk") auto
  from record_after_write [of demo_world "''sid=1''" "''pdfs/w''" "''A1''" demo_state
      demo_answers empty_disk out] r
  have "record_order None (trace (final out))" by blast
  with r m show ?thesis by auto
qed

subsection \<open>The cache decides what is skipped\<close>













subsection \<open>Errors stay where they happen\<close>










subsection \<open>The walk over the pages of a window\<close>










subsection \<open>Date strings are read back as written\<close>
















subsection \<open>One day on, one day back, three months on\<close>






subsection \<open>The next window\<close>











subsection \<open>What the cache log gives back\<close>












subsection \<open>A run that finds everything in the cache\<close>









subsection \<open>What the prompt lets through\<close>

lemma ask_input_valid:
  "ask_input validate dflt typed = Some (x, r) \<Longrightarrow> validate x"
  by (induction typed) (auto simp: Let_def split: if_splits)

lemma digit_not_dash: "is_digit c \<Longrightarrow> c \<noteq> CHR ''-''"
  by (auto simp: is_digit_def)

lemma validate_date_parses:
  assumes "validate_date input"
  shows "parseDate input \<noteq> None"
proof -
  from assms obtain d1 d2 m1 m2 y1 y2 y3 y4 where
    i: "input = [d1, d2, CHR ''-'', m1, m2, CHR ''-'', y1, y2, y3, y4]" and
    d: "is_digit d1" "is_digit d2" "is_digit m1" "is_digit m2"
       "is_digit y1" "is_digit y2" "is_digit y3" "is_digit y4"
    by (auto simp: validate_date_def split: list.splits)
  from d have n: "d1 \<noteq> CHR ''-''" "d2 \<noteq> CHR ''-''" "m1 \<noteq> CHR ''-''" "m2 \<noteq> CHR ''-''"
    "y1 \<noteq> CHR ''-''" "y2 \<noteq> CHR ''-''" "y3 \<noteq> CHR ''-''" "y4 \<noteq> CHR ''-''"
    by (simp_all add: digit_not_dash)
  have "split_on CHR ''-'' input = [[d1, d2], [m1, m2], [y1, y2, y3, y4]]"
    using n by (simp add: i)
  with d show ?thesis
    by (simp add: parseDate_def Number_of_def)
qed

lemma prompt_answers_valid:
  assumes "prompt_answers typed = Some a"
  shows "validate_cookie (cookie a) \<and> validate_date (fromDate a) \<and> validate_date (toDate a)"
proof -
  from assms obtain r1 r2 r3 r4 x where
    c: "ask_input validate_cookie [] typed = Some (cookie a, r1)" and
    t: "ask_input (\<lambda>input. True) ''500'' r1 = Some (x, r2)" and
    f: "ask_input validate_date ''01-01-2024'' r2 = Some (fromDate a, r3)" and
    e: "ask_input validate_date ''31-03-2024'' r3 = Some (toDate a, r4)"
    by (auto simp: prompt_answers_def split: Option.bind_splits list.splits)
  from ask_input_valid [OF c] ask_input_valid [OF f] ask_input_valid [OF e]
  show ?thesis by simp
qed

text \<open>
  Claim C9, as the code has it. The prompt accepts only a non-empty cookie and dates of
  the form of two digits, a dash, two digits, a dash and four digits, and asks again
  otherwise; such dates are always read as a date. The run starts with the accepted
  answers, and nothing happens while the answers are incomplete. \<^verbatim>\<open>runScraper\<close> itself
  checks nothing.
\<close>

theorem prompt_validates:
  "(prompt_answers typed = Some a \<longrightarrow>
      cookie a \<noteq> [] \<and> validate_date (fromDate a) \<and> validate_date (toDate a) \<and>
      parseDate (fromDate a) \<noteq> None \<and> parseDate (toDate a) \<noteq> None \<and>
      startScraper W typed d = runScraper W a d) \<and>
   (prompt_answers typed = None \<longrightarrow> startScraper W typed d = None)"
proof -
  have "cookie a \<noteq> [] \<and> validate_date (fromDate a) \<and> validate_date (toDate a) \<and>
      parseDate (fromDate a) \<noteq> None \<and> parseDate (toDate a) \<noteq> None \<and>
      startScraper W typed d = runScraper W a d"
    if p: "prompt_answers typed = Some a"
    using prompt_answers_valid [OF p] validate_date_parses p
    by (simp add: validate_cookie_def startScraper_def)
  then show ?thesis
    by (auto simp: startScraper_def)
qed

theorem prompt_validates_witness:
  "prompt_answers demo_typed = Some demo_answers \<and>
   cookie demo_answers \<noteq> [] \<and> validate_date (fromDate demo_answers) \<and>
   validate_date (toDate demo_answers) \<and>
   parseDate (fromDate demo_answers) \<noteq> None \<and> parseDate (toDate demo_answers) \<noteq> None \<and>
   startScraper demo_world demo_typed empty_disk = runScraper demo_world demo_answers empty_disk \<and>
   prompt_answers [[], ''sid=1''] = None \<and>
   startScraper demo_world [[], ''sid=1''] empty_disk = None"
proof -
  have p: "prompt_answers demo_typed = Some demo_answers" by code_simp
  have q: "prompt_answers [[], ''sid=1''] = None" by code_simp
  from prompt_validates [of demo_typed demo_answers demo_world empty_disk] p
    prompt_validates [of "[[], ''sid=1'']" demo_answers demo_world empty_disk] q
  show ?thesis by simp
qed

theorem unvalidated_run_counterexample:
  "cookie bad_answers = [] \<and> \<not> validate_date (fromDate bad_answers) \<and>
   \<not> validate_date (toDate bad_answers) \<and>
   \<not> Option.is_none (runScraper demo_world bad_answers empty_disk) \<and>
   resolved (the (runScraper demo_world bad_answers empty_disk)) \<and>
   ''pdfs/yesterday_to_today'' \<in> dirs (final (the (runScraper demo_world bad_answers empty_disk))) \<and>
   PostListing [] (page_payload ''yesterday'' ''today'' (options_of bad_answers) 0) (Returned [])
     \<in> set (trace (final (the (runScraper demo_world bad_answers empty_disk))))"
  by code_simp

end
